theory Spec2Isabelle
  imports Main "HOL-Library.AList"
begin

section \<open>JavaScript values\<close>

text \<open>
  \<^verbatim>\<open>src/index.js\<close> is untyped JavaScript: the payload of \<^verbatim>\<open>put\<close>, the key given to
  \<^verbatim>\<open>at\<close>, the options of \<^verbatim>\<open>init\<close> and the attributes of a stored item are arbitrary
  JavaScript values. They are modelled as finite trees.
  \<^item> An object is the list of its own enumerable properties in property order; its keys
    are distinct. Two values that are equal here are deep-equal in JavaScript (deep
    equality does not look at the order of the properties).
  \<^item> A number is an integer (\<open>JNum\<close>), \<open>NaN\<close> or an infinity (\<open>JInfinity True\<close> is
    the negative one). Fractional doubles and the negative zero are outside the model;
    an integer stands for a double only inside the safe range (\<open>safe_integer\<close>).
  \<^item> Strings are lists of code units below 256.
  \<^item> \<open>JBackRef n\<close> is a reference to the \<open>n\<close>-th enclosing array or object: the finite
    picture of a circular structure (\<^verbatim>\<open>a = {}; a.self = a\<close> is \<open>JObj [(''self'', JBackRef 0)]\<close>).
  Functions, symbols, dates and objects with a \<^verbatim>\<open>toJSON\<close> method are not modelled.
\<close>

datatype jsval =
    JUndefined
  | JNull
  | JBool bool
  | JNum int
  | JNaN
  | JInfinity bool
  | JBigInt int
  | JStr string
  | JArr "jsval list"
  | JObj "(string \<times> jsval) list"
  | JBackRef nat

text \<open>
  The failures of the program. The names are those of the specification's taxonomy; in
  JavaScript they are
  \<^item> \<open>ConfigurationError\<close>: \<^verbatim>\<open>new Error("Insufficient credentials provided")\<close> (line 57);
  \<^item> \<open>UninitializedClientError\<close>: the \<^verbatim>\<open>TypeError\<close> of reading \<^verbatim>\<open>send\<close> of the
    \<^verbatim>\<open>undefined\<close> module variable \<^verbatim>\<open>client\<close> (lines 78 and 86);
  \<^item> \<open>SerializationError\<close>: the \<^verbatim>\<open>TypeError\<close> thrown by \<^verbatim>\<open>JSON.stringify\<close>;
  \<^item> \<open>SyntaxError\<close>: thrown by \<^verbatim>\<open>JSON.parse\<close>;
  \<^item> \<open>DestructuringError\<close>: the \<^verbatim>\<open>TypeError\<close> of destructuring \<^verbatim>\<open>null\<close> (line 36);
  \<^item> \<open>BackendError\<close>: whatever \<^verbatim>\<open>client.send\<close> rejects with;
  \<^item> \<open>NotModelled\<close>: the input leaves the modelled fragment (a number literal with a
    fraction or an exponent, \<^verbatim>\<open>-0\<close>, an integer outside the safe range, a code unit above
    255, a conditional write).
\<close>

datatype error =
    ConfigurationError
  | UninitializedClientError
  | SerializationError
  | SyntaxError
  | DestructuringError
  | BackendError string
  | NotModelled

text \<open>\<^verbatim>\<open>ToBoolean\<close>: the test of \<^verbatim>\<open>if\<close>, \<^verbatim>\<open>&&\<close>, \<^verbatim>\<open>||\<close> and \<^verbatim>\<open>?:\<close>.\<close>

fun truthy :: "jsval \<Rightarrow> bool" where
  "truthy JUndefined = False"
| "truthy JNull = False"
| "truthy (JBool b) = b"
| "truthy (JNum n) = (n \<noteq> 0)"
| "truthy JNaN = False"
| "truthy (JInfinity neg) = True"
| "truthy (JBigInt n) = (n \<noteq> 0)"
| "truthy (JStr s) = (s \<noteq> [])"
| "truthy (JArr xs) = True"
| "truthy (JObj kvs) = True"
| "truthy (JBackRef n) = True"

subsection \<open>Decimal and hexadecimal digits\<close>

definition digit_char :: "nat \<Rightarrow> char" where
  "digit_char d = char_of (48 + d)"

definition is_digit :: "char \<Rightarrow> bool" where
  "is_digit c = (48 \<le> (of_char c :: nat) \<and> (of_char c :: nat) \<le> 57)"

definition digit_val :: "char \<Rightarrow> nat" where
  "digit_val c = of_char c - 48"

fun show_nat :: "nat \<Rightarrow> string" where
  "show_nat n = (if n < 10 then [digit_char n] else show_nat (n div 10) @ [digit_char (n mod 10)])"

declare show_nat.simps [simp del]

definition show_int :: "int \<Rightarrow> string" where
  "show_int i = (if i < 0 then CHR ''-'' # show_nat (nat (- i)) else show_nat (nat i))"

definition hex_char :: "nat \<Rightarrow> char" where
  "hex_char d = (if d < 10 then char_of (48 + d) else char_of (87 + d))"

definition hex_val :: "char \<Rightarrow> nat option" where
  "hex_val c =
     (let n = (of_char c :: nat) in
      if 48 \<le> n \<and> n \<le> 57 then Some (n - 48)
      else if 97 \<le> n \<and> n \<le> 102 then Some (n - 87)
      else if 65 \<le> n \<and> n \<le> 70 then Some (n - 55)
      else None)"

subsection \<open>\<^verbatim>\<open>JSON.stringify\<close>\<close>

text \<open>
  \<^verbatim>\<open>QuoteJSONString\<close>: the quotation mark and the reverse solidus are escaped, the
  control characters below U+0020 are written with their short escape or as
  \<^verbatim>\<open>\u00XX\<close> in lower-case hexadecimal, everything else stands for itself.
\<close>

definition dquote :: char where
  "dquote = CHR 0x22"

definition backslash :: char where
  "backslash = CHR 0x5C"

definition quote_char :: "char \<Rightarrow> string" where
  "quote_char c =
     (if c = dquote then [backslash, dquote]
      else if c = backslash then [backslash, backslash]
      else if c = CHR 0x08 then [backslash, CHR ''b'']
      else if c = CHR 0x0C then [backslash, CHR ''f'']
      else if c = CHR 0x0A then [backslash, CHR ''n'']
      else if c = CHR 0x0D then [backslash, CHR ''r'']
      else if c = CHR 0x09 then [backslash, CHR ''t'']
      else if (of_char c :: nat) < 32 then
        [backslash, CHR ''u'', CHR ''0'', CHR ''0'',
         hex_char ((of_char c :: nat) div 16), hex_char ((of_char c :: nat) mod 16)]
      else [c])"

definition quote :: "string \<Rightarrow> string" where
  "quote s = dquote # concat (map quote_char s) @ [dquote]"

text \<open>
  \<^verbatim>\<open>SerializeJSONProperty\<close>, without replacer and indentation. The result is \<open>None\<close>
  where JavaScript gives \<^verbatim>\<open>undefined\<close>. An \<^verbatim>\<open>undefined\<close> array element is written
  \<^verbatim>\<open>null\<close>, an \<^verbatim>\<open>undefined\<close> object member is dropped, a non-finite number is written
  \<^verbatim>\<open>null\<close>, and a BigInt or a value met again below itself throws a \<^verbatim>\<open>TypeError\<close>.
  \<open>ser_elems\<close> and \<open>ser_members\<close> give the text between the brackets.
\<close>

fun ser :: "jsval \<Rightarrow> error + string option"
  and ser_elems :: "jsval list \<Rightarrow> error + string"
  and ser_members :: "bool \<Rightarrow> (string \<times> jsval) list \<Rightarrow> error + string"
where
  "ser JUndefined = Inr None"
| "ser JNull = Inr (Some ''null'')"
| "ser (JBool b) = Inr (Some (if b then ''true'' else ''false''))"
| "ser (JNum n) = Inr (Some (show_int n))"
| "ser JNaN = Inr (Some ''null'')"
| "ser (JInfinity neg) = Inr (Some ''null'')"
| "ser (JBigInt n) = Inl SerializationError"
| "ser (JStr s) = Inr (Some (quote s))"
| "ser (JArr xs) =
     (case ser_elems xs of Inl e \<Rightarrow> Inl e | Inr t \<Rightarrow> Inr (Some (''['' @ t @ '']'')))"
| "ser (JObj kvs) =
     (case ser_members True kvs of Inl e \<Rightarrow> Inl e | Inr t \<Rightarrow> Inr (Some (''{'' @ t @ ''}'')))"
| "ser (JBackRef n) = Inl SerializationError"
| "ser_elems [] = Inr []"
| "ser_elems (x # xs) =
     (case ser x of
        Inl e \<Rightarrow> Inl e
      | Inr r \<Rightarrow>
          (case ser_elems xs of
             Inl e \<Rightarrow> Inl e
           | Inr t \<Rightarrow>
               Inr ((case r of None \<Rightarrow> ''null'' | Some s \<Rightarrow> s) @ (if xs = [] then [] else '','' @ t))))"
| "ser_members first [] = Inr []"
| "ser_members first ((k, v) # kvs) =
     (case ser v of
        Inl e \<Rightarrow> Inl e
      | Inr None \<Rightarrow> ser_members first kvs
      | Inr (Some s) \<Rightarrow>
          (case ser_members False kvs of
             Inl e \<Rightarrow> Inl e
           | Inr t \<Rightarrow> Inr ((if first then [] else '','') @ quote k @ '':'' @ s @ t)))"

text \<open>
  \<^verbatim>\<open>JSON.stringify(data)\<close> as a JavaScript value: a string, or \<^verbatim>\<open>undefined\<close>.
\<close>

definition JSON_stringify :: "jsval \<Rightarrow> error + jsval" where
  "JSON_stringify v =
     (case ser v of
        Inl e \<Rightarrow> Inl e
      | Inr None \<Rightarrow> Inr JUndefined
      | Inr (Some s) \<Rightarrow> Inr (JStr s))"

subsection \<open>\<^verbatim>\<open>JSON.parse\<close>\<close>

text \<open>
  \<^verbatim>\<open>ToString\<close>, which \<^verbatim>\<open>JSON.parse\<close> applies to its argument first. An array is the
  join of its elements by commas, \<^verbatim>\<open>null\<close> and \<^verbatim>\<open>undefined\<close> elements and elements
  already being joined giving the empty string.
\<close>

fun ToString :: "jsval \<Rightarrow> string"
  and join_elems :: "jsval list \<Rightarrow> string"
where
  "ToString JUndefined = ''undefined''"
| "ToString JNull = ''null''"
| "ToString (JBool b) = (if b then ''true'' else ''false'')"
| "ToString (JNum n) = show_int n"
| "ToString JNaN = ''NaN''"
| "ToString (JInfinity neg) = (if neg then ''-Infinity'' else ''Infinity'')"
| "ToString (JBigInt n) = show_int n"
| "ToString (JStr s) = s"
| "ToString (JArr xs) = join_elems xs"
| "ToString (JObj kvs) = ''[object Object]''"
| "ToString (JBackRef n) = []"
| "join_elems [] = []"
| "join_elems (x # xs) =
     (if x = JUndefined \<or> x = JNull then [] else ToString x) @ (if xs = [] then [] else '','' @ join_elems xs)"

definition is_ws :: "char \<Rightarrow> bool" where
  "is_ws c = (c = CHR '' '' \<or> c = CHR 0x09 \<or> c = CHR 0x0A \<or> c = CHR 0x0D)"

definition skip_ws :: "string \<Rightarrow> string" where
  "skip_ws s = dropWhile is_ws s"

text \<open>The character after a reverse solidus inside a string literal, decoded.\<close>

definition unescape :: "string \<Rightarrow> error + (char \<times> string)" where
  "unescape cs =
     (case cs of
        [] \<Rightarrow> Inl SyntaxError
      | e # r \<Rightarrow>
          if e = dquote then Inr (dquote, r)
          else if e = backslash then Inr (backslash, r)
          else if e = CHR ''/'' then Inr (CHR ''/'', r)
          else if e = CHR ''b'' then Inr (CHR 0x08, r)
          else if e = CHR ''f'' then Inr (CHR 0x0C, r)
          else if e = CHR ''n'' then Inr (CHR 0x0A, r)
          else if e = CHR ''r'' then Inr (CHR 0x0D, r)
          else if e = CHR ''t'' then Inr (CHR 0x09, r)
          else if e = CHR ''u'' then
            (case r of
               h1 # h2 # h3 # h4 # r' \<Rightarrow>
                 (case (hex_val h1, hex_val h2, hex_val h3, hex_val h4) of
                    (Some a, Some b, Some c, Some d) \<Rightarrow>
                      (let n = ((a * 16 + b) * 16 + c) * 16 + d
                       in if n < 256 then Inr (char_of n, r') else Inl NotModelled)
                  | _ \<Rightarrow> Inl SyntaxError)
             | _ \<Rightarrow> Inl SyntaxError)
          else Inl SyntaxError)"

lemma unescape_shorter: "unescape cs = Inr (d, r) \<Longrightarrow> length r < length cs"
  unfolding unescape_def
  by (cases cs) (auto simp: Let_def split: list.splits if_splits option.splits)

text \<open>
  A string literal after its opening quotation mark: the decoded string and the text
  after the closing quotation mark. A raw control character is a syntax error.
\<close>

function parse_string_body :: "string \<Rightarrow> error + (string \<times> string)" where
  "parse_string_body [] = Inl SyntaxError"
| "parse_string_body (c # cs) =
     (if c = dquote then Inr ([], cs)
      else if c = backslash then
        (case unescape cs of
           Inl e \<Rightarrow> Inl e
         | Inr (d, r) \<Rightarrow>
             (case parse_string_body r of Inl e \<Rightarrow> Inl e | Inr (s, r') \<Rightarrow> Inr (d # s, r')))
      else if (of_char c :: nat) < 32 then Inl SyntaxError
      else (case parse_string_body cs of Inl e \<Rightarrow> Inl e | Inr (s, r') \<Rightarrow> Inr (c # s, r')))"
  by pat_completeness auto
termination
  by (relation "measure length") (auto dest: unescape_shorter)

definition digits_val :: "string \<Rightarrow> nat" where
  "digits_val ds = foldl (\<lambda>a c. 10 * a + digit_val c) 0 ds"

definition safe_integer :: "int \<Rightarrow> bool" where
  "safe_integer n = (- 9007199254740991 \<le> n \<and> n \<le> 9007199254740991)"

text \<open>
  A number literal. Only integer literals inside the safe range are numbers of the
  model: a fraction, an exponent, \<^verbatim>\<open>-0\<close> and larger integers give \<open>NotModelled\<close>.
\<close>

definition parse_number :: "string \<Rightarrow> error + (jsval \<times> string)" where
  "parse_number s =
     (let neg = (case s of [] \<Rightarrow> False | c # cs \<Rightarrow> c = CHR ''-'');
          r = (if neg then tl s else s);
          ds = takeWhile is_digit r;
          rest = dropWhile is_digit r
      in case ds of
           [] \<Rightarrow> Inl SyntaxError
         | d # ds' \<Rightarrow>
             if d = CHR ''0'' \<and> ds' \<noteq> [] then Inl SyntaxError
             else if (case rest of [] \<Rightarrow> False | c # cs \<Rightarrow> c = CHR ''.'' \<or> c = CHR ''e'' \<or> c = CHR ''E'')
               then Inl NotModelled
             else if neg \<and> digits_val ds = 0 then Inl NotModelled
             else if \<not> safe_integer (int (digits_val ds)) then Inl NotModelled
             else Inr (JNum (if neg then - int (digits_val ds) else int (digits_val ds)), rest))"

fun parse_literal :: "string \<Rightarrow> jsval \<Rightarrow> string \<Rightarrow> error + (jsval \<times> string)" where
  "parse_literal [] v s = Inr (v, s)"
| "parse_literal (l # ls) v [] = Inl SyntaxError"
| "parse_literal (l # ls) v (c # cs) = (if c = l then parse_literal ls v cs else Inl SyntaxError)"

text \<open>
  The JSON grammar by recursive descent: a value (\<open>parse_value\<close>), the elements of an
  array after its opening bracket (\<open>parse_elems\<close>, with the elements read so far), the
  members of an object after its opening brace (\<open>parse_members\<close>). Each step is written
  over the parsers it calls; \<open>parse\<close> ties them together, its first argument bounding the
  depth of the recursion. \<open>JSON_parse_text\<close> gives it twice the length of the text and one:
  beyond that bound the result no longer depends on it (\<open>parse_fuel\<close>).
  Members are added with \<^verbatim>\<open>CreateDataProperty\<close>: a repeated key keeps its place and takes
  the later value.
\<close>

type_synonym parse_result = "error + (jsval \<times> string)"

definition value_step ::
  "(string \<Rightarrow> parse_result) \<Rightarrow> (string \<Rightarrow> parse_result) \<Rightarrow> string \<Rightarrow> parse_result" where
  "value_step elems members s =
     (case s of
        [] \<Rightarrow> Inl SyntaxError
      | c # cs \<Rightarrow>
          if c = dquote then
            (case parse_string_body cs of Inl e \<Rightarrow> Inl e | Inr (str, r) \<Rightarrow> Inr (JStr str, r))
          else if c = CHR ''['' then
            (case skip_ws cs of
               [] \<Rightarrow> Inl SyntaxError
             | d # r \<Rightarrow> if d = CHR '']'' then Inr (JArr [], r) else elems (d # r))
          else if c = CHR ''{'' then
            (case skip_ws cs of
               [] \<Rightarrow> Inl SyntaxError
             | d # r \<Rightarrow> if d = CHR ''}'' then Inr (JObj [], r) else members (d # r))
          else if c = CHR ''n'' then parse_literal ''null'' JNull s
          else if c = CHR ''t'' then parse_literal ''true'' (JBool True) s
          else if c = CHR ''f'' then parse_literal ''false'' (JBool False) s
          else if c = CHR ''-'' \<or> is_digit c then parse_number s
          else Inl SyntaxError)"

definition elems_step ::
  "(string \<Rightarrow> parse_result) \<Rightarrow> (jsval list \<Rightarrow> string \<Rightarrow> parse_result) \<Rightarrow>
   jsval list \<Rightarrow> string \<Rightarrow> parse_result" where
  "elems_step val elems acc s =
     (case val s of
        Inl e \<Rightarrow> Inl e
      | Inr (v, r) \<Rightarrow>
          (case skip_ws r of
             [] \<Rightarrow> Inl SyntaxError
           | d # r' \<Rightarrow>
               if d = CHR '','' then elems (acc @ [v]) (skip_ws r')
               else if d = CHR '']'' then Inr (JArr (acc @ [v]), r')
               else Inl SyntaxError))"

definition members_step ::
  "(string \<Rightarrow> parse_result) \<Rightarrow> ((string \<times> jsval) list \<Rightarrow> string \<Rightarrow> parse_result) \<Rightarrow>
   (string \<times> jsval) list \<Rightarrow> string \<Rightarrow> parse_result" where
  "members_step val members acc s =
     (case s of
        [] \<Rightarrow> Inl SyntaxError
      | c # cs \<Rightarrow>
          if c \<noteq> dquote then Inl SyntaxError
          else
            (case parse_string_body cs of
               Inl e \<Rightarrow> Inl e
             | Inr (k, r) \<Rightarrow>
                 (case skip_ws r of
                    [] \<Rightarrow> Inl SyntaxError
                  | d # r1 \<Rightarrow>
                      if d \<noteq> CHR '':'' then Inl SyntaxError
                      else
                        (case val (skip_ws r1) of
                           Inl e \<Rightarrow> Inl e
                         | Inr (v, r2) \<Rightarrow>
                             (case skip_ws r2 of
                                [] \<Rightarrow> Inl SyntaxError
                              | d2 # r3 \<Rightarrow>
                                  if d2 = CHR '','' then members (AList.update k v acc) (skip_ws r3)
                                  else if d2 = CHR ''}'' then Inr (JObj (AList.update k v acc), r3)
                                  else Inl SyntaxError)))))"

datatype parse_mode = PValue | PElems "jsval list" | PMembers "(string \<times> jsval) list"

primrec parse :: "nat \<Rightarrow> parse_mode \<Rightarrow> string \<Rightarrow> parse_result" where
  "parse 0 m s = Inl NotModelled"
| "parse (Suc f) m s =
     (case m of
        PValue \<Rightarrow> value_step (parse f (PElems [])) (parse f (PMembers [])) s
      | PElems acc \<Rightarrow> elems_step (parse f PValue) (\<lambda>a. parse f (PElems a)) acc s
      | PMembers acc \<Rightarrow> members_step (parse f PValue) (\<lambda>a. parse f (PMembers a)) acc s)"

definition parse_value :: "nat \<Rightarrow> string \<Rightarrow> parse_result" where
  "parse_value f s = parse f PValue s"

definition parse_elems :: "nat \<Rightarrow> jsval list \<Rightarrow> string \<Rightarrow> parse_result" where
  "parse_elems f acc s = parse f (PElems acc) s"

definition parse_members :: "nat \<Rightarrow> (string \<times> jsval) list \<Rightarrow> string \<Rightarrow> parse_result" where
  "parse_members f acc s = parse f (PMembers acc) s"

definition JSON_parse_text :: "string \<Rightarrow> error + jsval" where
  "JSON_parse_text s =
     (case parse_value (Suc (2 * length s)) (skip_ws s) of
        Inl e \<Rightarrow> Inl e
      | Inr (v, r) \<Rightarrow> if skip_ws r = [] then Inr v else Inl SyntaxError)"

text \<open>\<^verbatim>\<open>JSON.parse(x)\<close> for any JavaScript value \<open>x\<close>.\<close>

definition JSON_parse :: "jsval \<Rightarrow> error + jsval" where
  "JSON_parse x = JSON_parse_text (ToString x)"

section \<open>The module \<^verbatim>\<open>src/index.js\<close>\<close>

subsection \<open>State, environment and the collaborators\<close>

text \<open>
  \<^verbatim>\<open>process.env\<close>: \<open>None\<close> where \<^verbatim>\<open>typeof process === 'undefined'\<close>. \<open>env_var\<close> is the
  expression \<^verbatim>\<open>typeof process !== 'undefined' ? process.env.X : undefined\<close>.
\<close>

type_synonym env = "(string \<Rightarrow> string option) option"

definition env_var :: "env \<Rightarrow> string \<Rightarrow> jsval" where
  "env_var pe name =
     (case pe of
        None \<Rightarrow> JUndefined
      | Some e \<Rightarrow> (case e name of None \<Rightarrow> JUndefined | Some s \<Rightarrow> JStr s))"

text \<open>
  The credentials \<^verbatim>\<open>init\<close> builds: the provider returned by
  \<^verbatim>\<open>fromCognitoIdentityPool({client: new CognitoIdentityClient({region}), identityPoolId})\<close>,
  or the literal \<^verbatim>\<open>{accessKeyId, secretAccessKey}\<close>. The client handle is
  \<^verbatim>\<open>DynamoDBDocumentClient.from(new DynamoDBClient({region, credentials}))\<close>.
\<close>

datatype credentials = Federated jsval jsval | Static jsval jsval

record client_handle =
  region :: jsval
  credentials :: credentials

type_synonym item = "(string \<times> jsval) list"

text \<open>
  The commands handed to \<^verbatim>\<open>client.send\<close>: \<open>GetCommand TableName Key\<close> and
  \<open>PutCommand TableName Item ConditionExpression\<close>. The input of a put has the optional
  field \<^verbatim>\<open>ConditionExpression\<close>; a write without it overwrites unconditionally. The
  response to a command is an object whose \<^verbatim>\<open>Item\<close> is an attribute mapping or
  \<^verbatim>\<open>undefined\<close> (\<open>None\<close>).
\<close>

datatype command =
    GetCommand jsval jsval
  | PutCommand jsval item "string option"

record response =
  Item :: "item option"

text \<open>
  The state a call can change: the module variable \<^verbatim>\<open>client\<close> (line 4, \<open>None\<close> while it
  is \<^verbatim>\<open>undefined\<close>), the modules awaited with \<^verbatim>\<open>await import(...)\<close>, the commands handed
  to \<^verbatim>\<open>client.send\<close>, and the state of the database service.
\<close>

record 'db world =
  client :: "client_handle option"
  imported :: "string list"
  requests :: "command list"
  db :: 'db

definition initial_world :: "'db \<Rightarrow> 'db world" where
  "initial_world d = \<lparr>client = None, imported = [], requests = [], db = d\<rparr>"

text \<open>
  The database service behind \<^verbatim>\<open>client.send\<close> is a parameter of the model: any function
  from the client handle, the command and the service's state to a response or an error
  and the new state. \<open>client_send\<close> is \<^verbatim>\<open>await client.send(command)\<close> on an established
  handle.
\<close>

type_synonym 'db service = "client_handle \<Rightarrow> command \<Rightarrow> 'db \<Rightarrow> (error + response) \<times> 'db"

definition client_send ::
  "'db service \<Rightarrow> client_handle \<Rightarrow> command \<Rightarrow> 'db world \<Rightarrow> (error + response) \<times> 'db world" where
  "client_send svc h cmd w =
     (case svc h cmd (db w) of
        (r, d) \<Rightarrow> (r, w\<lparr>requests := requests w @ [cmd], db := d\<rparr>))"

subsection \<open>JavaScript expressions the module uses\<close>

text \<open>
  \<^verbatim>\<open>o.name\<close> for a name that no prototype defines and that is no index (\<^verbatim>\<open>region\<close>,
  \<^verbatim>\<open>identityPoolId\<close>, \<^verbatim>\<open>accessKeyId\<close>, \<^verbatim>\<open>secretAccessKey\<close>, \<^verbatim>\<open>JSON\<close>), on a value
  other than \<^verbatim>\<open>null\<close> and \<^verbatim>\<open>undefined\<close>.
\<close>

definition js_prop :: "jsval \<Rightarrow> string \<Rightarrow> jsval" where
  "js_prop v name =
     (case v of
        JObj kvs \<Rightarrow> (case map_of kvs name of None \<Rightarrow> JUndefined | Some x \<Rightarrow> x)
      | _ \<Rightarrow> JUndefined)"

text \<open>A default of a parameter or of a destructured property: used for \<^verbatim>\<open>undefined\<close> only.\<close>

definition with_default :: "jsval \<Rightarrow> jsval \<Rightarrow> jsval" where
  "with_default v d = (if v = JUndefined then d else v)"

text \<open>
  The own enumerable properties the spread \<^verbatim>\<open>{...v}\<close> copies: those of an object, the
  indices of an array or a string, nothing for the other values.
\<close>

fun index_props :: "nat \<Rightarrow> jsval list \<Rightarrow> item" where
  "index_props i [] = []"
| "index_props i (x # xs) = (show_nat i, x) # index_props (Suc i) xs"

definition spread :: "jsval \<Rightarrow> item" where
  "spread v =
     (case v of
        JObj kvs \<Rightarrow> kvs
      | JArr xs \<Rightarrow> index_props 0 xs
      | JStr s \<Rightarrow> index_props 0 (map (\<lambda>c. JStr [c]) s)
      | _ \<Rightarrow> [])"

subsection \<open>\<^verbatim>\<open>init\<close> (lines 36 to 61)\<close>

text \<open>
  The parameter \<^verbatim>\<open>{region = ..., identityPoolId = ..., accessKeyId = ...,
  secretAccessKey = ...} = {}\<close>: the argument defaults to \<^verbatim>\<open>{}\<close>, destructuring \<^verbatim>\<open>null\<close>
  throws, and each property that is \<^verbatim>\<open>undefined\<close> falls back to its environment variable.
  The result is \<open>(region, identityPoolId, accessKeyId, secretAccessKey)\<close>.
\<close>

definition init_options :: "env \<Rightarrow> jsval \<Rightarrow> error + (jsval \<times> jsval \<times> jsval \<times> jsval)" where
  "init_options pe arg =
     (let opts = with_default arg (JObj [])
      in if opts = JNull then Inl DestructuringError
         else Inr (with_default (js_prop opts ''region'') (env_var pe ''AWS_REGION''),
                   with_default (js_prop opts ''identityPoolId'') (env_var pe ''AWS_IDENTITY_POOL_ID''),
                   with_default (js_prop opts ''accessKeyId'') (env_var pe ''AWS_ACCESS_KEY_ID''),
                   with_default (js_prop opts ''secretAccessKey'') (env_var pe ''AWS_SECRET_ACCESS_KEY'')))"

text \<open>
  \<^verbatim>\<open>init\<close> is an \<^verbatim>\<open>async\<close> function: \<open>Inl\<close> is the rejection of the promise it returns,
  \<open>Inr ()\<close> its fulfilment. The two \<^verbatim>\<open>await import(...)\<close> of the identity-pool branch are
  its only suspension points; the imports and the constructors of the SDK are taken to
  succeed.
\<close>

definition init :: "env \<Rightarrow> jsval \<Rightarrow> 'db world \<Rightarrow> (error + unit) \<times> 'db world" where
  "init pe arg w =
     (case init_options pe arg of
        Inl e \<Rightarrow> (Inl e, w)
      | Inr (reg, identityPoolId, accessKeyId, secretAccessKey) \<Rightarrow>
          if truthy identityPoolId then
            (Inr (),
             w\<lparr>imported := imported w @
                  [''@aws-sdk/client-cognito-identity'', ''@aws-sdk/credential-provider-cognito-identity''],
               client := Some \<lparr>region = reg, credentials = Federated reg identityPoolId\<rparr>\<rparr>)
          else if truthy accessKeyId \<and> truthy secretAccessKey then
            (Inr (), w\<lparr>client := Some \<lparr>region = reg, credentials = Static accessKeyId secretAccessKey\<rparr>\<rparr>)
          else (Inl ConfigurationError, w))"

subsection \<open>\<^verbatim>\<open>table\<close> (lines 72 to 99)\<close>

text \<open>
  \<^verbatim>\<open>tablename || (typeof process !== 'undefined' ? process.env.DYNAMODB_TABLE : undefined)\<close>
\<close>

definition table_name :: "env \<Rightarrow> jsval \<Rightarrow> jsval" where
  "table_name pe tablename = (if truthy tablename then tablename else env_var pe ''DYNAMODB_TABLE'')"

text \<open>
  Line 82:
  \<^verbatim>\<open>response.Item && response.Item.JSON ? JSON.parse(response.Item.JSON) : response.Item || null\<close>.
  Without an item the test is \<^verbatim>\<open>undefined\<close> and \<^verbatim>\<open>undefined || null\<close> is \<^verbatim>\<open>null\<close>; an item
  is an object, hence truthy, so the test is its \<^verbatim>\<open>JSON\<close> property and the else branch is
  the item itself.
\<close>

definition get_return :: "response \<Rightarrow> error + jsval" where
  "get_return resp =
     (case Item resp of
        None \<Rightarrow> Inr JNull
      | Some attrs \<Rightarrow>
          if truthy (js_prop (JObj attrs) ''JSON'') then JSON_parse (js_prop (JObj attrs) ''JSON'')
          else Inr (JObj attrs))"

text \<open>
  The objects \<^verbatim>\<open>table(tablename)\<close> and \<^verbatim>\<open>.at(PKorPKSK)\<close> return. Both methods first await
  the import of \<^verbatim>\<open>@aws-sdk/lib-dynamodb\<close>. In the call \<^verbatim>\<open>client.send(new ...Command({...}))\<close>
  the function \<^verbatim>\<open>client.send\<close> is read before the argument is evaluated: on an
  \<^verbatim>\<open>undefined\<close> client the \<^verbatim>\<open>TypeError\<close> comes before \<^verbatim>\<open>JSON.stringify\<close> runs. The item of
  a put is \<^verbatim>\<open>{...PKorPKSK, JSON: JSON.stringify(data)}\<close>: the property \<^verbatim>\<open>JSON\<close> is set
  after the spread, in place when the spread already gave one.
\<close>

record 'db atObject =
  get :: "'db world \<Rightarrow> (error + jsval) \<times> 'db world"
  put :: "jsval \<Rightarrow> 'db world \<Rightarrow> (error + response) \<times> 'db world"

record 'db tableObject =
  at :: "jsval \<Rightarrow> 'db atObject"

definition table :: "'db service \<Rightarrow> env \<Rightarrow> jsval \<Rightarrow> 'db tableObject" where
  "table svc pe tablename =
     \<lparr>at = (\<lambda>PKorPKSK.
        \<lparr>get = (\<lambda>w.
            let w1 = w\<lparr>imported := imported w @ [''@aws-sdk/lib-dynamodb'']\<rparr>
            in case client w1 of
                 None \<Rightarrow> (Inl UninitializedClientError, w1)
               | Some h \<Rightarrow>
                   (case client_send svc h (GetCommand (table_name pe tablename) PKorPKSK) w1 of
                      (Inl e, w2) \<Rightarrow> (Inl e, w2)
                    | (Inr resp, w2) \<Rightarrow> (get_return resp, w2))),
         put = (\<lambda>data w.
            let w1 = w\<lparr>imported := imported w @ [''@aws-sdk/lib-dynamodb'']\<rparr>
            in case client w1 of
                 None \<Rightarrow> (Inl UninitializedClientError, w1)
               | Some h \<Rightarrow>
                   (case JSON_stringify data of
                      Inl e \<Rightarrow> (Inl e, w1)
                    | Inr j \<Rightarrow>
                        client_send svc h
                          (PutCommand (table_name pe tablename)
                             (AList.update ''JSON'' j (spread PKorPKSK)) None) w1))\<rparr>)\<rparr>"


subsection \<open>A database service\<close>

text \<open>
  Modelled from the spec: the managed database behind \<^verbatim>\<open>client.send\<close> (the AWS SDK and the
  service) is no code of this repository. The specification gives its interface
  (\<^verbatim>\<open>DBClient.get(table, key) -> Item|null\<close>, \<^verbatim>\<open>DBClient.put(...) -> ack\<close>) and says that the
  attributes of the key schema identify an item within a table. \<open>ddb_send\<close> is that
  service: a table has a key schema and one item for each key; a key attribute is a
  non-empty string or a number; a get takes exactly the attributes of the key schema; a
  put takes an item that has them, refuses a value that cannot be marshalled
  (\<^verbatim>\<open>undefined\<close>, a non-finite number, a circular structure) and replaces whatever item
  has the same key. Conditional writes are not modelled.
\<close>

record ddb_table =
  key_schema :: "string list"
  rows :: "jsval list \<Rightarrow> item option"

type_synonym ddb = "string \<Rightarrow> ddb_table option"

definition scalar :: "jsval \<Rightarrow> bool" where
  "scalar v = (case v of JStr s \<Rightarrow> s \<noteq> [] | JNum n \<Rightarrow> True | _ \<Rightarrow> False)"

fun storable :: "jsval \<Rightarrow> bool" where
  "storable JUndefined = False"
| "storable JNaN = False"
| "storable (JInfinity neg) = False"
| "storable (JBackRef n) = False"
| "storable (JArr xs) = (\<forall>x \<in> set xs. storable x)"
| "storable (JObj kvs) = (\<forall>kv \<in> set kvs. storable (snd kv))"
| "storable v = True"

definition key_values :: "string list \<Rightarrow> item \<Rightarrow> jsval list option" where
  "key_values schema attrs =
     (case those (map (map_of attrs) schema) of
        None \<Rightarrow> None
      | Some vs \<Rightarrow> if list_all scalar vs then Some vs else None)"

definition valid_key :: "string list \<Rightarrow> jsval \<Rightarrow> bool" where
  "valid_key schema k =
     (case k of
        JObj attrs \<Rightarrow>
          distinct (map fst attrs) \<and> set (map fst attrs) = set schema \<and> key_values schema attrs \<noteq> None
      | _ \<Rightarrow> False)"

text \<open>
  Modelled from the spec: the service's answer to a point lookup and to a point write, as
  described above.
\<close>

definition ddb_send :: "ddb service" where
  "ddb_send h cmd d =
     (case cmd of
        GetCommand tn k \<Rightarrow>
          (case tn of
             JStr name \<Rightarrow>
               (case d name of
                  None \<Rightarrow> (Inl (BackendError ''ResourceNotFoundException''), d)
                | Some tbl \<Rightarrow>
                    if valid_key (key_schema tbl) k then
                      (case key_values (key_schema tbl) (spread k) of
                         None \<Rightarrow> (Inl (BackendError ''ValidationException''), d)
                       | Some kv \<Rightarrow> (Inr \<lparr>Item = rows tbl kv\<rparr>, d))
                    else (Inl (BackendError ''ValidationException''), d))
           | _ \<Rightarrow> (Inl (BackendError ''ValidationException''), d))
      | PutCommand tn attrs cond \<Rightarrow>
          (case tn of
             JStr name \<Rightarrow>
               (case d name of
                  None \<Rightarrow> (Inl (BackendError ''ResourceNotFoundException''), d)
                | Some tbl \<Rightarrow>
                    if cond \<noteq> None then (Inl NotModelled, d)
                    else if \<not> storable (JObj attrs) then (Inl (BackendError ''MarshallingError''), d)
                    else
                      (case key_values (key_schema tbl) attrs of
                         None \<Rightarrow> (Inl (BackendError ''ValidationException''), d)
                       | Some kv \<Rightarrow>
                           (Inr \<lparr>Item = None\<rparr>,
                            d(name := Some (tbl\<lparr>rows := (rows tbl)(kv := Some attrs)\<rparr>)))))
           | _ \<Rightarrow> (Inl (BackendError ''ValidationException''), d)))"

subsection \<open>Scenarios\<close>

text \<open>
  The inputs the theorems below are tried on: the environments and options of the
  examples in the documentation of \<^verbatim>\<open>init\<close>; a table \<^verbatim>\<open>users\<close> keyed by \<^verbatim>\<open>pk\<close> and \<^verbatim>\<open>sk\<close>
  that holds an item written by another tool (\<^verbatim>\<open>u2\<close>) and an item whose payload is
  \<^verbatim>\<open>null\<close> (\<^verbatim>\<open>u3\<close>); the state after a successful and after a failed \<^verbatim>\<open>init\<close>; the payload
  \<^verbatim>\<open>{name: 'Ada', age: 30}\<close> and its serialization; an object that contains itself; and a
  table \<^verbatim>\<open>notes\<close> whose partition key is named \<^verbatim>\<open>JSON\<close>.
\<close>

definition pool_env :: env where
  "pool_env = Some (\<lambda>name. if name = ''AWS_IDENTITY_POOL_ID'' then Some ''us-east-1:exampleId''
                              else if name = ''AWS_REGION'' then Some ''us-east-1'' else None)"


definition static_options :: jsval where
  "static_options = JObj [(''region'', JStr ''us-east-1''), (''accessKeyId'', JStr ''AKIAEXAMPLE''),
                          (''secretAccessKey'', JStr ''secret'')]"

definition users_table :: ddb_table where
  "users_table =
     \<lparr>key_schema = [''pk'', ''sk''],
      rows = (\<lambda>kv. if kv = [JStr ''u2'', JStr ''profile'']
                      then Some [(''pk'', JStr ''u2''), (''sk'', JStr ''profile''), (''name'', JStr ''Bob'')]
                    else if kv = [JStr ''u3'', JStr ''profile'']
                      then Some [(''pk'', JStr ''u3''), (''sk'', JStr ''profile''), (''JSON'', JStr ''null'')]
                    else None)\<rparr>"

definition users_db :: ddb where
  "users_db = (\<lambda>name. if name = ''users'' then Some users_table else None)"

definition static_handle :: client_handle where
  "static_handle = \<lparr>region = JStr ''us-east-1'', credentials = Static (JStr ''AKIAEXAMPLE'') (JStr ''secret'')\<rparr>"

definition ready_world :: "ddb world" where
  "ready_world = snd (init None static_options (initial_world users_db))"

definition cold_world :: "ddb world" where
  "cold_world = snd (init None JUndefined (initial_world users_db))"

definition user_key :: "string \<Rightarrow> jsval" where
  "user_key u = JObj [(''pk'', JStr u), (''sk'', JStr ''profile'')]"



definition circular :: jsval where
  "circular = JObj [(''self'', JBackRef 0)]"



section \<open>Values that survive serialization\<close>


text \<open>
  For the proof that \<open>JSON_parse\<close> inverts \<open>JSON_stringify\<close>: the first character of a
  serialized value, the text that may follow a value inside a JSON text, and the property
  of a value that the parser reads its serialization back, whatever delimited text
  follows.
\<close>

text \<open>
  The recursion bound from which on \<open>parse\<close> gives the same result for every bound.
\<close>

definition fuel_needed :: "parse_mode \<Rightarrow> string \<Rightarrow> nat" where
  "fuel_needed m s = (case m of PValue \<Rightarrow> 2 * length s | _ \<Rightarrow> Suc (2 * length s))"




section \<open>The recursion bound of the parser\<close>

text \<open>
  Every parser consumes text, so the recursion of \<open>parse\<close> is bounded by the length of the
  text: with a bound above \<open>fuel_needed\<close> the result does not depend on the bound.
\<close>

lemma skip_ws_length: "length (skip_ws s) \<le> length s"
  by (simp add: skip_ws_def length_dropWhile_le)

lemma parse_string_body_shorter: "parse_string_body s = Inr (x, r) \<Longrightarrow> length r < length s"
proof (induction s arbitrary: x r rule: parse_string_body.induct)
  case 1
  then show ?case by simp
next
  case (2 c cs)
  show ?case
  proof (cases "c = dquote")
    case True
    with 2(3) show ?thesis by simp
  next
    case nq: False
    show ?thesis
    proof (cases "c = backslash")
      case True
      from 2(3) nq True obtain d r0 x' where u: "unescape cs = Inr (d, r0)"
        and p: "parse_string_body r0 = Inr (x', r)"
        by (auto split: sum.splits prod.splits)
      from 2(1)[OF nq True u[symmetric, THEN sym] refl p] unescape_shorter[OF u]
      show ?thesis by simp
    next
      case False
      from 2(3) nq False obtain x' where p: "parse_string_body cs = Inr (x', r)" and "\<not> (of_char c :: nat) < 32"
        by (auto split: sum.splits prod.splits if_splits)
      from 2(2)[OF nq False this(2) p] show ?thesis by simp
    qed
  qed
qed

lemma parse_literal_shorter:
  "l \<noteq> [] \<Longrightarrow> parse_literal l v s = Inr (x, r) \<Longrightarrow> length r < length s"
proof (induction l v s rule: parse_literal.induct)
  case (3 l ls v c cs)
  show ?case
  proof (cases ls)
    case Nil
    with 3(3) show ?thesis by (auto split: if_splits)
  next
    case (Cons a as)
    with 3 show ?thesis by (auto split: if_splits)
  qed
qed simp_all

lemma parse_number_shorter: "parse_number s = Inr (x, r) \<Longrightarrow> length r < length s"
proof -
  assume a: "parse_number s = Inr (x, r)"
  define neg where "neg = (case s of [] \<Rightarrow> False | c # cs \<Rightarrow> c = CHR ''-'')"
  define r0 where "r0 = (if neg then tl s else s)"
  from a have r: "r = dropWhile is_digit r0" and ne: "takeWhile is_digit r0 \<noteq> []"
    unfolding parse_number_def Let_def neg_def[symmetric] r0_def[symmetric]
    by (auto split: list.splits if_splits)
  have "length (takeWhile is_digit r0) + length (dropWhile is_digit r0) = length r0"
    by (metis length_append takeWhile_dropWhile_id)
  with ne r have "length r < length r0" by (cases "takeWhile is_digit r0") auto
  moreover have "length r0 \<le> length s" by (simp add: r0_def)
  ultimately show ?thesis by simp
qed

lemma skip_ws_Cons_length: "skip_ws s = d # r \<Longrightarrow> length r < length s"
  using skip_ws_length[of s] by simp

lemma value_step_shorter:
  assumes e: "\<And>s v r. elems s = Inr (v, r) \<Longrightarrow> length r < length s"
    and m: "\<And>s v r. members s = Inr (v, r) \<Longrightarrow> length r < length s"
    and a: "value_step elems members s = Inr (v, r)"
  shows "length r < length s"
proof (cases s)
  case Nil
  with a show ?thesis by (simp add: value_step_def)
next
  case (Cons c cs)
  consider (str) "c = dquote" | (arr) "c \<noteq> dquote" "c = CHR ''[''" | (obj) "c \<noteq> dquote" "c \<noteq> CHR ''[''" "c = CHR ''{''"
    | (lit) "c \<noteq> dquote" "c \<noteq> CHR ''[''" "c \<noteq> CHR ''{''" by blast
  then show ?thesis
  proof cases
    case str
    with a Cons obtain x where "parse_string_body cs = Inr (x, r)"
      by (auto simp: value_step_def split: sum.splits prod.splits)
    from parse_string_body_shorter[OF this] Cons show ?thesis by simp
  next
    case arr
    with a Cons obtain d r0 where sk: "skip_ws cs = d # r0"
      and res: "(d = CHR '']'' \<and> r = r0) \<or> elems (d # r0) = Inr (v, r)"
      by (auto simp: value_step_def split: list.splits if_splits)
    from res have "length r \<le> length r0" using e[of "d # r0" v r] by auto
    with skip_ws_Cons_length[OF sk] Cons show ?thesis by simp
  next
    case obj
    with a Cons obtain d r0 where sk: "skip_ws cs = d # r0"
      and res: "(d = CHR ''}'' \<and> r = r0) \<or> members (d # r0) = Inr (v, r)"
      by (auto simp: value_step_def split: list.splits if_splits)
    from res have "length r \<le> length r0" using m[of "d # r0" v r] by auto
    with skip_ws_Cons_length[OF sk] Cons show ?thesis by simp
  next
    case lit
    with a Cons have "parse_literal ''null'' JNull s = Inr (v, r) \<or> parse_literal ''true'' (JBool True) s = Inr (v, r)
       \<or> parse_literal ''false'' (JBool False) s = Inr (v, r) \<or> parse_number s = Inr (v, r)"
      by (simp add: value_step_def split: if_splits)
    then show ?thesis using parse_literal_shorter parse_number_shorter by blast
  qed
qed

lemma elems_step_shorter:
  assumes v: "\<And>s v r. val s = Inr (v, r) \<Longrightarrow> length r < length s"
    and e: "\<And>acc s v r. elems acc s = Inr (v, r) \<Longrightarrow> length r < length s"
    and a: "elems_step val elems acc s = Inr (x, r)"
  shows "length r < length s"
proof -
  from a obtain x0 r0 d r1 where v0: "val s = Inr (x0, r0)" and sk: "skip_ws r0 = d # r1"
    and res: "(d = CHR '','' \<and> elems (acc @ [x0]) (skip_ws r1) = Inr (x, r)) \<or> (d = CHR '']'' \<and> r = r1)"
    by (auto simp: elems_step_def split: sum.splits prod.splits list.splits if_splits)
  from res have "length r \<le> length r1"
    using e[of "acc @ [x0]" "skip_ws r1" x r] skip_ws_length[of r1] by auto
  with v[OF v0] skip_ws_Cons_length[OF sk] show ?thesis by simp
qed

lemma members_step_shorter:
  assumes v: "\<And>s v r. val s = Inr (v, r) \<Longrightarrow> length r < length s"
    and m: "\<And>acc s v r. members acc s = Inr (v, r) \<Longrightarrow> length r < length s"
    and a: "members_step val members acc s = Inr (x, r)"
  shows "length r < length s"
proof -
  from a obtain cs k r0 r1 x0 r2 d2 r3 where s: "s = dquote # cs"
    and ps: "parse_string_body cs = Inr (k, r0)" and sk1: "skip_ws r0 = CHR '':'' # r1"
    and v0: "val (skip_ws r1) = Inr (x0, r2)" and sk2: "skip_ws r2 = d2 # r3"
    and res: "(d2 = CHR '','' \<and> members (AList.update k x0 acc) (skip_ws r3) = Inr (x, r)) \<or> (d2 = CHR ''}'' \<and> r = r3)"
    by (auto simp: members_step_def split: sum.splits prod.splits list.splits if_splits)
  from res have "length r \<le> length r3"
    using m[of "AList.update k x0 acc" "skip_ws r3" x r] skip_ws_length[of r3] by auto
  with v[OF v0] skip_ws_Cons_length[OF sk2] skip_ws_Cons_length[OF sk1] parse_string_body_shorter[OF ps]
    skip_ws_length[of r1] s
  show ?thesis by simp
qed

lemma parse_shorter: "parse f m s = Inr (v, r) \<Longrightarrow> length r < length s"
proof (induction f arbitrary: m s v r)
  case 0
  then show ?case by simp
next
  case (Suc f)
  show ?case
  proof (cases m)
    case PValue
    with Suc.prems have "value_step (parse f (PElems [])) (parse f (PMembers [])) s = Inr (v, r)" by simp
    then show ?thesis by (rule value_step_shorter[rotated 2]) (rule Suc.IH, assumption)+
  next
    case (PElems acc)
    with Suc.prems have "elems_step (parse f PValue) (\<lambda>a. parse f (PElems a)) acc s = Inr (v, r)" by simp
    then show ?thesis by (rule elems_step_shorter[rotated 2]) (rule Suc.IH, assumption)+
  next
    case (PMembers acc)
    with Suc.prems have "members_step (parse f PValue) (\<lambda>a. parse f (PMembers a)) acc s = Inr (v, r)" by simp
    then show ?thesis by (rule members_step_shorter[rotated 2]) (rule Suc.IH, assumption)+
  qed
qed

lemma value_step_agree:
  assumes "\<And>s'. length s' < length s \<Longrightarrow> elems s' = elems' s'"
    and "\<And>s'. length s' < length s \<Longrightarrow> members s' = members' s'"
  shows "value_step elems members s = value_step elems' members' s"
proof (cases s)
  case Nil
  then show ?thesis by (simp add: value_step_def)
next
  case (Cons c cs)
  show ?thesis
  proof (cases "skip_ws cs")
    case Nil
    show ?thesis unfolding value_step_def Cons list.case Nil by (rule refl)
  next
    case sk: (Cons d r)
    have "length (d # r) < length s" using skip_ws_length[of cs] sk Cons by simp
    then have a: "elems (d # r) = elems' (d # r)" "members (d # r) = members' (d # r)"
      using assms by blast+
    show ?thesis unfolding value_step_def Cons list.case sk a by (rule refl)
  qed
qed

lemma elems_step_agree:
  assumes v: "val s = val' s"
    and c: "\<And>x r. val s = Inr (x, r) \<Longrightarrow> length r < length s"
    and e: "\<And>a s'. Suc (length s') < length s \<Longrightarrow> elems a s' = elems' a s'"
  shows "elems_step val elems acc s = elems_step val' elems' acc s"
proof (cases "val s")
  case (Inl err)
  then have 1: "val s = Inl err" and 2: "val' s = Inl err" using v by simp_all
  show ?thesis unfolding elems_step_def 1 2 by simp
next
  case (Inr p)
  obtain x r where p: "p = (x, r)" by (cases p)
  from Inr p v have 1: "val s = Inr (x, r)" and 2: "val' s = Inr (x, r)" by simp_all
  show ?thesis
  proof (cases "skip_ws r")
    case Nil
    show ?thesis unfolding elems_step_def 1 2 sum.case prod.case Nil by simp
  next
    case (Cons d r')
    have "Suc (length (skip_ws r')) < length s"
      using c[OF 1] skip_ws_Cons_length[OF Cons] skip_ws_length[of r'] by simp
    then have a: "elems (acc @ [x]) (skip_ws r') = elems' (acc @ [x]) (skip_ws r')"
      using e by blast
    show ?thesis unfolding elems_step_def 1 2 sum.case prod.case Cons list.case a by (rule refl)
  qed
qed

lemma members_step_agree:
  assumes v: "\<And>s'. Suc (length s') < length s \<Longrightarrow> val s' = val' s'"
    and c: "\<And>s' x r. val s' = Inr (x, r) \<Longrightarrow> length r < length s'"
    and m: "\<And>a s'. Suc (length s') < length s \<Longrightarrow> members a s' = members' a s'"
  shows "members_step val members acc s = members_step val' members' acc s"
proof (cases s)
  case Nil
  then show ?thesis by (simp add: members_step_def)
next
  case s: (Cons q cs)
  show ?thesis
  proof (cases "parse_string_body cs")
    case (Inl err)
    show ?thesis unfolding members_step_def s list.case Inl by simp
  next
    case (Inr p)
    obtain k r0 where p: "p = (k, r0)" by (cases p)
    note ps = Inr[unfolded p]
    show ?thesis
    proof (cases "skip_ws r0")
      case Nil
      show ?thesis unfolding members_step_def s list.case ps sum.case prod.case Nil by simp
    next
      case sk1: (Cons d r1)
      have l1: "Suc (length (skip_ws r1)) < length s"
        using parse_string_body_shorter[OF ps] skip_ws_Cons_length[OF sk1] skip_ws_length[of r1] s by simp
      then have vv: "val (skip_ws r1) = val' (skip_ws r1)" using v by blast
      show ?thesis
      proof (cases "val' (skip_ws r1)")
        case (Inl err)
        show ?thesis unfolding members_step_def s list.case ps sum.case prod.case sk1 vv Inl by simp
      next
        case (Inr p2)
        obtain x r2 where p2: "p2 = (x, r2)" by (cases p2)
        note v2 = Inr[unfolded p2]
        show ?thesis
        proof (cases "skip_ws r2")
          case Nil
          show ?thesis unfolding members_step_def s list.case ps sum.case prod.case sk1 vv v2 Nil by simp
        next
          case sk2: (Cons d2 r3)
          have "length r2 < length (skip_ws r1)" using c[of "skip_ws r1" x r2] vv v2 by simp
          then have "Suc (length (skip_ws r3)) < length s"
            using l1 skip_ws_Cons_length[OF sk2] skip_ws_length[of r3] by simp
          then have a: "members (AList.update k x acc) (skip_ws r3) = members' (AList.update k x acc) (skip_ws r3)"
            using m by blast
          show ?thesis unfolding members_step_def s list.case ps sum.case prod.case sk1 vv v2 sk2 a
            by (rule refl)
        qed
      qed
    qed
  qed
qed

lemma parse_fuel:
  "fuel_needed m s < f \<Longrightarrow> fuel_needed m s < f' \<Longrightarrow> parse f m s = parse f' m s"
proof (induction f arbitrary: f' m s)
  case 0
  then show ?case by simp
next
  case (Suc f)
  from Suc.prems(2) obtain g where f': "f' = Suc g" by (cases f') auto
  show ?case
  proof (cases m)
    case PValue
    have le: "2 * length s \<le> f" "2 * length s \<le> g" using Suc.prems PValue f' by (simp_all add: fuel_needed_def)
    have e: "parse f (PElems []) s' = parse g (PElems []) s'" if "length s' < length s" for s'
      by (rule Suc.IH) (use le that in \<open>simp_all add: fuel_needed_def\<close>)
    have m: "parse f (PMembers []) s' = parse g (PMembers []) s'" if "length s' < length s" for s'
      by (rule Suc.IH) (use le that in \<open>simp_all add: fuel_needed_def\<close>)
    have "value_step (parse f (PElems [])) (parse f (PMembers [])) s
        = value_step (parse g (PElems [])) (parse g (PMembers [])) s"
      by (rule value_step_agree) (rule e m, assumption)+
    then show ?thesis unfolding f' PValue by simp
  next
    case (PElems acc)
    have le: "Suc (2 * length s) \<le> f" "Suc (2 * length s) \<le> g" using Suc.prems PElems f' by (simp_all add: fuel_needed_def)
    have v: "parse f PValue s = parse g PValue s"
      by (rule Suc.IH) (use le in \<open>simp_all add: fuel_needed_def\<close>)
    have e: "parse f (PElems a) s' = parse g (PElems a) s'" if "Suc (length s') < length s" for a s'
      by (rule Suc.IH) (use le that in \<open>simp_all add: fuel_needed_def\<close>)
    have "elems_step (parse f PValue) (\<lambda>a. parse f (PElems a)) acc s
        = elems_step (parse g PValue) (\<lambda>a. parse g (PElems a)) acc s"
    proof (rule elems_step_agree)
      show "parse f PValue s = parse g PValue s" by (rule v)
      show "length r < length s" if "parse f PValue s = Inr (x, r)" for x r
        using that by (rule parse_shorter)
      show "parse f (PElems a) s' = parse g (PElems a) s'" if "Suc (length s') < length s" for a s'
        using that by (rule e)
    qed
    then show ?thesis unfolding f' PElems by simp
  next
    case (PMembers acc)
    have le: "Suc (2 * length s) \<le> f" "Suc (2 * length s) \<le> g" using Suc.prems PMembers f' by (simp_all add: fuel_needed_def)
    have v: "parse f PValue s' = parse g PValue s'" if "Suc (length s') < length s" for s'
      by (rule Suc.IH) (use le that in \<open>simp_all add: fuel_needed_def\<close>)
    have e: "parse f (PMembers a) s' = parse g (PMembers a) s'" if "Suc (length s') < length s" for a s'
      by (rule Suc.IH) (use le that in \<open>simp_all add: fuel_needed_def\<close>)
    have "members_step (parse f PValue) (\<lambda>a. parse f (PMembers a)) acc s
        = members_step (parse g PValue) (\<lambda>a. parse g (PMembers a)) acc s"
    proof (rule members_step_agree)
      show "parse f PValue s' = parse g PValue s'" if "Suc (length s') < length s" for s'
        using that by (rule v)
      show "length r < length s'" if "parse f PValue s' = Inr (x, r)" for s' x r
        using that by (rule parse_shorter)
      show "parse f (PMembers a) s' = parse g (PMembers a) s'" if "Suc (length s') < length s" for a s'
        using that by (rule e)
    qed
    then show ?thesis unfolding f' PMembers by simp
  qed
qed

lemma JSON_parse_text_fuel:
  "2 * length s < f \<Longrightarrow>
   JSON_parse_text s =
     (case parse_value f (skip_ws s) of
        Inl e \<Rightarrow> Inl e
      | Inr (v, r) \<Rightarrow> if skip_ws r = [] then Inr v else Inl SyntaxError)"
proof -
  assume a: "2 * length s < f"
  have "parse (Suc (2 * length s)) PValue (skip_ws s) = parse f PValue (skip_ws s)"
    by (rule parse_fuel) (use a skip_ws_length[of s] in \<open>simp_all add: fuel_needed_def\<close>)
  then show ?thesis by (simp add: JSON_parse_text_def parse_value_def)
qed

section \<open>\<open>JSON_parse\<close> inverts \<open>JSON_stringify\<close>\<close>

subsection \<open>Numbers and strings\<close>

lemma of_char_digit_char: "d < 10 \<Longrightarrow> (of_char (digit_char d) :: nat) = 48 + d"
  by (simp add: digit_char_def)

lemma is_digit_digit_char: "d < 10 \<Longrightarrow> is_digit (digit_char d)"
  by (simp add: is_digit_def of_char_digit_char)





lemma show_nat_digits: "\<forall>c \<in> set (show_nat n). is_digit c"
proof (induction n rule: show_nat.induct)
  case (1 n)
  show ?case
  proof (cases "n < 10")
    case True
    then show ?thesis by (subst show_nat.simps) (simp add: is_digit_digit_char)
  next
    case False
    with 1 show ?thesis by (subst show_nat.simps) (simp add: is_digit_digit_char)
  qed
qed







lemma not_digit_minus: "\<not> is_digit (CHR ''-'')"
  by (simp add: is_digit_def)

lemma show_nat_not_minus: "show_nat m = c # cs \<Longrightarrow> c \<noteq> CHR ''-''"
  using show_nat_digits[of m] not_digit_minus by auto









lemma parse_value_Suc: "parse_value (Suc f) s = value_step (parse_elems f []) (parse_members f []) s"
  by (simp add: parse_value_def parse_elems_def[abs_def] parse_members_def[abs_def])









lemma parse_value_literals:
  assumes "0 < f"
  shows "parse_value f (''null'' @ r) = Inr (JNull, r)"
    and "parse_value f (''true'' @ r) = Inr (JBool True, r)"
    and "parse_value f (''false'' @ r) = Inr (JBool False, r)"
proof -
  from assms obtain f' where f: "f = Suc f'" by (cases f) auto
  show "parse_value f (''null'' @ r) = Inr (JNull, r)"
    unfolding f parse_value_Suc by (simp add: value_step_def dquote_def)
  show "parse_value f (''true'' @ r) = Inr (JBool True, r)"
    unfolding f parse_value_Suc by (simp add: value_step_def dquote_def)
  show "parse_value f (''false'' @ r) = Inr (JBool False, r)"
    unfolding f parse_value_Suc by (simp add: value_step_def dquote_def)
qed













section \<open>The two methods, unfolded\<close>


lemma put_uninitialized:
  "client w = None \<Longrightarrow>
   put (at (table svc pe t) k) data w =
     (Inl UninitializedClientError, w\<lparr>imported := imported w @ [''@aws-sdk/lib-dynamodb'']\<rparr>)"
  by (simp add: table_def)



lemma get_initialized:
  assumes "client w = Some h" and "svc h (GetCommand (table_name pe t) k) (db w) = (r, d)"
  shows "get (at (table svc pe t) k) w =
     ((case r of Inl e \<Rightarrow> Inl e | Inr resp \<Rightarrow> get_return resp),
      w\<lparr>imported := imported w @ [''@aws-sdk/lib-dynamodb''],
        requests := requests w @ [GetCommand (table_name pe t) k], db := d\<rparr>)"
  using assms by (simp add: table_def client_send_def split: sum.splits)

lemma put_unserializable:
  assumes "client w = Some h" and "JSON_stringify data = Inl e"
  shows "put (at (table svc pe t) k) data w =
     (Inl e, w\<lparr>imported := imported w @ [''@aws-sdk/lib-dynamodb'']\<rparr>)"
  using assms by (simp add: table_def)

lemma put_initialized:
  assumes "client w = Some h" and "JSON_stringify data = Inr j"
    and "svc h (PutCommand (table_name pe t) (AList.update ''JSON'' j (spread k)) None) (db w) = (r, d)"
  shows "put (at (table svc pe t) k) data w =
     (r, w\<lparr>imported := imported w @ [''@aws-sdk/lib-dynamodb''],
           requests := requests w @ [PutCommand (table_name pe t) (AList.update ''JSON'' j (spread k)) None],
           db := d\<rparr>)"
  using assms by (simp add: table_def client_send_def)

lemma ser_error:
  "ser v = Inl e \<Longrightarrow> e = SerializationError"
  "ser_elems xs = Inl e \<Longrightarrow> e = SerializationError"
  "ser_members first kvs = Inl e \<Longrightarrow> e = SerializationError"
  by (induction v and xs and first kvs rule: ser_ser_elems_ser_members.induct)
     (auto split: sum.splits option.splits)

lemma stringify_error: "JSON_stringify data = Inl e \<Longrightarrow> e = SerializationError"
  by (auto simp: JSON_stringify_def ser_error split: sum.splits option.splits)


lemma parse_null: "JSON_parse (JStr ''null'') = Inr JNull"
  by (simp add: JSON_parse_def JSON_parse_text_def skip_ws_def is_ws_def parse_value_literals(1)[of _ "[]", simplified])

section \<open>Facts about the database service\<close>






lemma put_undefined_refused:
  assumes "client w = Some h" and "table_name pe t = JStr name" and "db w name = Some tbl"
  shows "fst (put (at (table ddb_send pe t) k) JUndefined w) = Inl (BackendError ''MarshallingError'')
    \<and> db (snd (put (at (table ddb_send pe t) k) JUndefined w)) = db w"
proof -
  have s: "JSON_stringify JUndefined = Inr JUndefined" by (simp add: JSON_stringify_def)
  have "map_of (AList.update ''JSON'' JUndefined (spread k)) ''JSON'' = Some JUndefined"
    by (simp add: update_conv')
  then have "(''JSON'', JUndefined) \<in> set (AList.update ''JSON'' JUndefined (spread k))"
    by (rule map_of_SomeD)
  then have ns: "\<not> storable (JObj (AList.update ''JSON'' JUndefined (spread k)))"
    by force
  have send: "ddb_send h (PutCommand (table_name pe t) (AList.update ''JSON'' JUndefined (spread k)) None) (db w)
      = (Inl (BackendError ''MarshallingError''), db w)"
    unfolding assms(2) using assms(3) ns by (simp add: ddb_send_def)
  from put_initialized[where svc=ddb_send and pe=pe and t=t and k=k, OF assms(1) s send]
  show ?thesis by simp
qed

section \<open>The scenarios, evaluated\<close>

lemma static_options_resolved:
  "init_options None static_options = Inr (JStr ''us-east-1'', JUndefined, JStr ''AKIAEXAMPLE'', JStr ''secret'')"
  by (simp add: init_options_def static_options_def with_default_def js_prop_def env_var_def)

lemma ready_world_eq:
  "ready_world = \<lparr>client = Some static_handle, imported = [], requests = [], db = users_db\<rparr>"
  by (simp add: ready_world_def init_def static_options_resolved initial_world_def static_handle_def)

lemma ready_world_simps:
  "client ready_world = Some static_handle" "db ready_world = users_db" "requests ready_world = []"
  by (simp_all add: ready_world_eq)

lemma cold_world_client: "client cold_world = None"
  by (simp add: cold_world_def init_def init_options_def with_default_def js_prop_def env_var_def initial_world_def)



lemma users_table_name: "table_name None (JStr ''users'') = JStr ''users''"
  by (simp add: table_name_def)

lemma user_key_valid: "u \<noteq> [] \<Longrightarrow> key_values [''pk'', ''sk''] (spread (user_key u)) = Some [JStr u, JStr ''profile'']"
  "u \<noteq> [] \<Longrightarrow> valid_key [''pk'', ''sk''] (user_key u)"
  by (auto simp: key_values_def user_key_def spread_def scalar_def valid_key_def)

lemma users_table_simps:
  "users_db ''users'' = Some users_table" "key_schema users_table = [''pk'', ''sk'']"
  "rows users_table [JStr ''missing'', JStr ''profile''] = None"
  "rows users_table [JStr ''u1'', JStr ''profile''] = None"
  "rows users_table [JStr ''u2'', JStr ''profile'']
     = Some [(''pk'', JStr ''u2''), (''sk'', JStr ''profile''), (''name'', JStr ''Bob'')]"
  "rows users_table [JStr ''u3'', JStr ''profile'']
     = Some [(''pk'', JStr ''u3''), (''sk'', JStr ''profile''), (''JSON'', JStr ''null'')]"
  by (simp_all add: users_db_def users_table_def)

lemma users_get:
  "u \<noteq> [] \<Longrightarrow> ddb_send h (GetCommand (table_name None (JStr ''users'')) (user_key u)) users_db
     = (Inr \<lparr>Item = rows users_table [JStr u, JStr ''profile'']\<rparr>, users_db)"
  by (simp add: users_table_name ddb_send_def users_table_simps(1,2) user_key_valid)




lemma stringify_circular: "JSON_stringify circular = Inl SerializationError"
  by (simp add: JSON_stringify_def circular_def)



section \<open>The claims\<close>

subsection \<open>Initialization\<close>

text \<open>
  C3. Whenever, after the fall back to the environment, the options of \<^verbatim>\<open>init\<close> hold both an
  \<^verbatim>\<open>identityPoolId\<close> and a complete \<^verbatim>\<open>accessKeyId\<close>/\<^verbatim>\<open>secretAccessKey\<close> pair, \<^verbatim>\<open>init\<close>
  succeeds and the client it establishes carries the federated (identity-pool)
  credentials, not the static pair. A value is present as the code tests it: it is truthy.
\<close>

theorem init_prefers_identity_pool:
  assumes "init_options pe arg = Inr (reg, ip, ak, sk)" and "truthy ip" and "truthy ak" and "truthy sk"
  shows "fst (init pe arg w) = Inr ()
    \<and> client (snd (init pe arg w)) = Some \<lparr>region = reg, credentials = Federated reg ip\<rparr>
    \<and> client (snd (init pe arg w)) \<noteq> Some \<lparr>region = reg, credentials = Static ak sk\<rparr>"
  using assms by (simp add: init_def)

theorem init_prefers_identity_pool_witness:
  "init_options pool_env static_options
      = Inr (JStr ''us-east-1'', JStr ''us-east-1:exampleId'', JStr ''AKIAEXAMPLE'', JStr ''secret'')
   \<and> fst (init pool_env static_options (initial_world users_db)) = Inr ()
   \<and> client (snd (init pool_env static_options (initial_world users_db)))
       = Some \<lparr>region = JStr ''us-east-1'',
               credentials = Federated (JStr ''us-east-1'') (JStr ''us-east-1:exampleId'')\<rparr>"
proof -
  have o: "init_options pool_env static_options
      = Inr (JStr ''us-east-1'', JStr ''us-east-1:exampleId'', JStr ''AKIAEXAMPLE'', JStr ''secret'')"
    by (simp add: init_options_def static_options_def with_default_def js_prop_def env_var_def pool_env_def)
  show ?thesis
    using o init_prefers_identity_pool[OF o, of "initial_world users_db"] by simp
qed



subsection \<open>Reading\<close>

text \<open>
  C2. When the service answers the lookup of a key without an item, \<^verbatim>\<open>get()\<close> succeeds
  and returns \<^verbatim>\<open>null\<close>, the absent-marker: no error, and not \<^verbatim>\<open>undefined\<close>.
\<close>

theorem get_absent_returns_null:
  assumes "client w = Some h"
    and "svc h (GetCommand (table_name pe t) k) (db w) = (Inr \<lparr>Item = None\<rparr>, d)"
  shows "fst (get (at (table svc pe t) k) w) = Inr JNull"
  using get_initialized[where svc=svc and pe=pe and t=t and k=k, OF assms] by (simp add: get_return_def)

theorem get_absent_returns_null_witness:
  "client ready_world = Some static_handle
   \<and> ddb_send static_handle (GetCommand (table_name None (JStr ''users'')) (user_key ''missing'')) (db ready_world)
       = (Inr \<lparr>Item = None\<rparr>, users_db)
   \<and> fst (get (at (table ddb_send None (JStr ''users'')) (user_key ''missing'')) ready_world) = Inr JNull"
proof -
  have g: "ddb_send static_handle (GetCommand (table_name None (JStr ''users'')) (user_key ''missing'')) (db ready_world)
       = (Inr \<lparr>Item = None\<rparr>, users_db)"
    by (simp add: ready_world_simps users_get users_table_simps)
  show ?thesis
    using g ready_world_simps(1)
      get_absent_returns_null[where svc=ddb_send and pe=None and t="JStr ''users''" and k="user_key ''missing''",
        OF ready_world_simps(1) g]
    by simp
qed

text \<open>
  C6. When the stored item has no attribute \<^verbatim>\<open>JSON\<close>, \<^verbatim>\<open>get()\<close> returns the attribute
  mapping of the item as the service gave it.
\<close>

theorem get_raw_item_unchanged:
  assumes "client w = Some h"
    and "svc h (GetCommand (table_name pe t) k) (db w) = (Inr \<lparr>Item = Some attrs\<rparr>, d)"
    and "map_of attrs ''JSON'' = None"
  shows "fst (get (at (table svc pe t) k) w) = Inr (JObj attrs)"
  using get_initialized[where svc=svc and pe=pe and t=t and k=k, OF assms(1,2)] assms(3) by (simp add: get_return_def js_prop_def)

theorem get_raw_item_unchanged_witness:
  "client ready_world = Some static_handle
   \<and> ddb_send static_handle (GetCommand (table_name None (JStr ''users'')) (user_key ''u2'')) (db ready_world)
       = (Inr \<lparr>Item = Some [(''pk'', JStr ''u2''), (''sk'', JStr ''profile''), (''name'', JStr ''Bob'')]\<rparr>, users_db)
   \<and> map_of [(''pk'', JStr ''u2''), (''sk'', JStr ''profile''), (''name'', JStr ''Bob'')] ''JSON'' = None
   \<and> fst (get (at (table ddb_send None (JStr ''users'')) (user_key ''u2'')) ready_world)
       = Inr (JObj [(''pk'', JStr ''u2''), (''sk'', JStr ''profile''), (''name'', JStr ''Bob'')])"
proof -
  have g: "ddb_send static_handle (GetCommand (table_name None (JStr ''users'')) (user_key ''u2'')) (db ready_world)
       = (Inr \<lparr>Item = Some [(''pk'', JStr ''u2''), (''sk'', JStr ''profile''), (''name'', JStr ''Bob'')]\<rparr>, users_db)"
    by (simp add: ready_world_simps users_get users_table_simps)
  have m: "map_of [(''pk'', JStr ''u2''), (''sk'', JStr ''profile''), (''name'', JStr ''Bob'')] ''JSON'' = None"
    by simp
  show ?thesis
    using g m ready_world_simps(1)
      get_raw_item_unchanged[where svc=ddb_send and pe=None and t="JStr ''users''" and k="user_key ''u2''",
        OF ready_world_simps(1) g m]
    by simp
qed

text \<open>
  C9. When the attribute \<^verbatim>\<open>JSON\<close> of the stored item is the text \<^verbatim>\<open>null\<close>, which is the
  serialization of \<^verbatim>\<open>null\<close>, \<^verbatim>\<open>get()\<close> returns \<^verbatim>\<open>null\<close>: the return value of line 82 for
  this item is the one for no item at all.
\<close>

theorem get_stored_null_is_absent_marker:
  assumes "client w = Some h"
    and "svc h (GetCommand (table_name pe t) k) (db w) = (Inr \<lparr>Item = Some attrs\<rparr>, d)"
    and "map_of attrs ''JSON'' = Some (JStr ''null'')"
  shows "fst (get (at (table svc pe t) k) w) = Inr JNull
    \<and> get_return \<lparr>Item = Some attrs\<rparr> = get_return \<lparr>Item = None\<rparr>
    \<and> JSON_stringify JNull = Inr (JStr ''null'')"
  using get_initialized[where svc=svc and pe=pe and t=t and k=k, OF assms(1,2)] assms(3)
  by (simp add: get_return_def js_prop_def parse_null JSON_stringify_def)

theorem get_stored_null_is_absent_marker_witness:
  "client ready_world = Some static_handle
   \<and> ddb_send static_handle (GetCommand (table_name None (JStr ''users'')) (user_key ''u3'')) (db ready_world)
       = (Inr \<lparr>Item = Some [(''pk'', JStr ''u3''), (''sk'', JStr ''profile''), (''JSON'', JStr ''null'')]\<rparr>, users_db)
   \<and> map_of [(''pk'', JStr ''u3''), (''sk'', JStr ''profile''), (''JSON'', JStr ''null'')] ''JSON'' = Some (JStr ''null'')
   \<and> fst (get (at (table ddb_send None (JStr ''users'')) (user_key ''u3'')) ready_world) = Inr JNull
   \<and> fst (get (at (table ddb_send None (JStr ''users'')) (user_key ''missing'')) ready_world) = Inr JNull"
proof -
  have g: "ddb_send static_handle (GetCommand (table_name None (JStr ''users'')) (user_key ''u3'')) (db ready_world)
       = (Inr \<lparr>Item = Some [(''pk'', JStr ''u3''), (''sk'', JStr ''profile''), (''JSON'', JStr ''null'')]\<rparr>, users_db)"
    by (simp add: ready_world_simps users_get users_table_simps)
  have m: "map_of [(''pk'', JStr ''u3''), (''sk'', JStr ''profile''), (''JSON'', JStr ''null'')] ''JSON'' = Some (JStr ''null'')"
    by simp
  have a: "ddb_send static_handle (GetCommand (table_name None (JStr ''users'')) (user_key ''missing'')) (db ready_world)
       = (Inr \<lparr>Item = None\<rparr>, users_db)"
    by (simp add: ready_world_simps users_get users_table_simps)
  have absent: "fst (get (at (table ddb_send None (JStr ''users'')) (user_key ''missing'')) ready_world) = Inr JNull"
    using get_initialized[where svc=ddb_send and pe=None and t="JStr ''users''" and k="user_key ''missing''",
        OF ready_world_simps(1) a]
    by (simp add: get_return_def)
  show ?thesis
    using g m absent ready_world_simps(1)
      get_stored_null_is_absent_marker[where svc=ddb_send and pe=None and t="JStr ''users''" and k="user_key ''u3''",
        OF ready_world_simps(1) g m]
    by simp
qed

subsection \<open>Before initialization\<close>



subsection \<open>Writing\<close>

text \<open>
  C7. A \<^verbatim>\<open>put\<close> of a payload that \<^verbatim>\<open>JSON.stringify\<close> refuses fails, hands no command to the
  service and changes neither the state of the service nor the client. On an
  established client the failure is the serialization error; on the \<^verbatim>\<open>undefined\<close>
  client the \<^verbatim>\<open>TypeError\<close> of \<^verbatim>\<open>client.send\<close> comes first.
\<close>

theorem put_unserializable_sends_nothing:
  assumes "JSON_stringify data = Inl e"
  shows "fst (put (at (table svc pe t) k) data w)
           = Inl (if client w = None then UninitializedClientError else SerializationError)
    \<and> requests (snd (put (at (table svc pe t) k) data w)) = requests w
    \<and> db (snd (put (at (table svc pe t) k) data w)) = db w
    \<and> client (snd (put (at (table svc pe t) k) data w)) = client w"
proof (cases "client w")
  case None
  then show ?thesis by (simp add: put_uninitialized)
next
  case (Some h)
  from put_unserializable[OF Some assms] stringify_error[OF assms] Some
  show ?thesis by simp
qed

theorem put_unserializable_sends_nothing_witness:
  "JSON_stringify circular = Inl SerializationError
   \<and> fst (put (at (table ddb_send None (JStr ''users'')) (user_key ''u1'')) circular ready_world) = Inl SerializationError
   \<and> requests (snd (put (at (table ddb_send None (JStr ''users'')) (user_key ''u1'')) circular ready_world)) = []
   \<and> db (snd (put (at (table ddb_send None (JStr ''users'')) (user_key ''u1'')) circular ready_world)) = users_db"
  using stringify_circular
    put_unserializable_sends_nothing[OF stringify_circular, of ddb_send None "JStr ''users''" "user_key ''u1''" ready_world]
  by (simp add: ready_world_simps)





subsection \<open>The round trip\<close>




end
